theory Spec2Isabelle
  imports Main "HOL-Library.AList" "HOL-Library.Sublist"
begin

section \<open>Python values\<close>

text \<open>
  Two kinds of data flow through the program.

  \<^item> JSON documents received over HTTP (the environment, the replies of the simulator's
    server, the bodies posted to \<open>/send_action\<close>). The program only reads them, so
    they are immutable trees. A dict is an association list in insertion order whose
    keys are distinct; \<open>map_of\<close> is the lookup.

  \<^item> The task groups the caller hands to \<open>TaskExecutor.execute\<close>. These are the
    caller's own mutable dicts and lists, so they live in a heap of objects and are
    passed by reference: copying a dict allocates, assigning to a key writes to one
    address.

  Numbers are never computed with (they are looked up and interpolated into code
  strings), so one integer constructor stands for them.
\<close>

datatype json =
    JNull
  | JBool bool
  | JNum int
  | JStr string
  | JList "json list"
  | JDict "(string \<times> json) list"

type_synonym addr = nat

datatype val =
    VNone
  | VBool bool
  | VNum int
  | VStr string
  | VRef addr

datatype obj =
    OList "val list"
  | ODict "(string \<times> val) list"

type_synonym heap = "obj list"

text \<open>
  The exceptions the modelled code can raise. \<open>KeyError\<close> is raised both by a
  failed dict subscript (its argument is the key) and by \<open>execute\<close> itself at
  \<open>raise KeyError(error_msg)\<close>; the message
  \<open>f"Object '{target_name}' not found. Available objects: {available_objects}"\<close>
  is kept as the two values interpolated into it. \<open>ValueError\<close> is
  \<open>ValueError(f"Unknown skill: {task['skill']}")\<close>, kept as the interpolated skill.
  \<open>Dangling\<close> is not a Python exception: it marks a reference to an address outside
  the heap, which no Python program can hold.
\<close>

datatype key_msg =
    MissingKey string
  | ObjectNotFound val "string list"

datatype error =
    KeyError key_msg
  | ValueError val
  | TypeError
  | AttributeError
  | RequestException
  | JSONDecodeError
  | Dangling

definition deref :: "heap \<Rightarrow> addr \<Rightarrow> obj option" where
  "deref h a = (if a < length h then Some (h ! a) else None)"

text \<open>\<open>v[k]\<close> for a string key \<open>k\<close>: only a dict accepts it.\<close>

definition py_getitem :: "heap \<Rightarrow> val \<Rightarrow> string \<Rightarrow> error + val" where
  "py_getitem h v k =
     (case v of
        VRef a \<Rightarrow>
          (case deref h a of
             None \<Rightarrow> Inl Dangling
           | Some (OList vs) \<Rightarrow> Inl TypeError
           | Some (ODict d) \<Rightarrow>
               (case map_of d k of
                  None \<Rightarrow> Inl (KeyError (MissingKey k))
                | Some x \<Rightarrow> Inr x))
      | _ \<Rightarrow> Inl TypeError)"

text \<open>
  \<open>for x in v\<close>: a list yields its elements, a dict its keys, a string its
  characters; nothing else is iterable.
\<close>

definition py_iter :: "heap \<Rightarrow> val \<Rightarrow> error + val list" where
  "py_iter h v =
     (case v of
        VRef a \<Rightarrow>
          (case deref h a of
             None \<Rightarrow> Inl Dangling
           | Some (OList vs) \<Rightarrow> Inr vs
           | Some (ODict d) \<Rightarrow> Inr (map (\<lambda>kv. VStr (fst kv)) d))
      | VStr s \<Rightarrow> Inr (map (\<lambda>c. VStr [c]) s)
      | _ \<Rightarrow> Inl TypeError)"

text \<open>\<open>j[k]\<close> on a parsed JSON document.\<close>

definition json_getitem :: "json \<Rightarrow> string \<Rightarrow> error + json" where
  "json_getitem j k =
     (case j of
        JDict d \<Rightarrow>
          (case map_of d k of
             None \<Rightarrow> Inl (KeyError (MissingKey k))
           | Some x \<Rightarrow> Inr x)
      | _ \<Rightarrow> Inl TypeError)"

section \<open>The task executor (src/agent/src/runner/executor.py)\<close>

subsection \<open>Flattening the task groups\<close>

text \<open>
  \<^verbatim>\<open>
  def _make_task_sequence(self, task_outputs):
      task_sequence = []
      for task_output in task_outputs:
          subgoal = task_output["subgoal"]
          tasks = task_output["tasks"]
          for task in tasks:
              task_sequence.append(task)
      return task_sequence
  \<close>
  \<open>task_sequence\<close> is a new list that only this function holds, so it is a HOL
  list of the references appended to it. The heap is only read.
\<close>

fun append_tasks :: "val list \<Rightarrow> val list \<Rightarrow> val list" where
  "append_tasks task_sequence [] = task_sequence"
| "append_tasks task_sequence (task # tasks) = append_tasks (task_sequence @ [task]) tasks"

fun flatten_groups :: "heap \<Rightarrow> val list \<Rightarrow> val list \<Rightarrow> error + val list" where
  "flatten_groups h task_sequence [] = Inr task_sequence"
| "flatten_groups h task_sequence (task_output # rest) =
     (case py_getitem h task_output ''subgoal'' of
        Inl e \<Rightarrow> Inl e
      | Inr subgoal \<Rightarrow>
          (case py_getitem h task_output ''tasks'' of
             Inl e \<Rightarrow> Inl e
           | Inr tasks \<Rightarrow>
               (case py_iter h tasks of
                  Inl e \<Rightarrow> Inl e
                | Inr ts \<Rightarrow> flatten_groups h (append_tasks task_sequence ts) rest)))"

definition make_task_sequence :: "heap \<Rightarrow> val \<Rightarrow> error + val list" where
  "make_task_sequence h task_outputs =
     (case py_iter h task_outputs of
        Inl e \<Rightarrow> Inl e
      | Inr groups \<Rightarrow> flatten_groups h [] groups)"

subsection \<open>The network\<close>

text \<open>
  The body posted to \<open>/send_action\<close> is a nested dict whose leaves are strings; the
  code string is an f-string, kept as its pieces: literal text and the interpolated
  value (\<open>{pos}\<close>, which Python renders with \<open>str\<close>).

  The server is a parameter. It answers a request given the requests posted before it:
  no answer (\<open>requests.post\<close> raises), a body that is not JSON (\<open>response.json()\<close>
  raises), or a JSON document. \<open>sent\<close> is the log of the bodies posted, in order; a
  body is logged when \<open>requests.post\<close> is called, whatever the answer.
\<close>

datatype fpart = Lit string | Fmt json

datatype payload =
    PStr "fpart list"
  | PDict "(string \<times> payload) list"

datatype reply = NoReply | NotJson | Json json

type_synonym server = "payload list \<Rightarrow> payload \<Rightarrow> reply"

record world =
  heap :: heap
  sent :: "payload list"

definition requests_post :: "server \<Rightarrow> payload \<Rightarrow> world \<Rightarrow> (error + reply) \<times> world" where
  "requests_post srv p w =
     (case srv (sent w) p of
        NoReply \<Rightarrow> (Inl RequestException, w\<lparr>sent := sent w @ [p]\<rparr>)
      | r \<Rightarrow> (Inr r, w\<lparr>sent := sent w @ [p]\<rparr>))"

definition response_json :: "reply \<Rightarrow> error + json" where
  "response_json r = (case r of Json j \<Rightarrow> Inr j | _ \<Rightarrow> Inl JSONDecodeError)"

text \<open>
  The two lines that end each of the three skill methods:
  \<^verbatim>\<open>
      response = requests.post(f"{self.url}/send_action", json=payload)
      objects = response.json()["result"]
  \<close>
  (\<open>print(objects)\<close> writes to the terminal only.)
\<close>

definition send_action :: "server \<Rightarrow> payload \<Rightarrow> world \<Rightarrow> (error + unit) \<times> world" where
  "send_action srv p w =
     (case requests_post srv p w of
        (Inl e, w') \<Rightarrow> (Inl e, w')
      | (Inr response, w') \<Rightarrow>
          (case response_json response of
             Inl e \<Rightarrow> (Inl e, w')
           | Inr body \<Rightarrow>
               (case json_getitem body ''result'' of
                  Inl e \<Rightarrow> (Inl e, w')
                | Inr objects \<Rightarrow> (Inr (), w'))))"

subsection \<open>The three skills\<close>

definition run_code :: "fpart list \<Rightarrow> payload" where
  "run_code code =
     PDict [(''action'',
       PDict [(''type'', PStr [Lit ''run_code'']),
              (''payload'', PDict [(''code'', PStr code)])])]"

definition go_to_code :: "json \<Rightarrow> fpart list" where
  "go_to_code pos =
     [Lit (CHR 0x0A # ''path = plan_mobile_path(''), Fmt pos,
      Lit ('')'' @ CHR 0x0A # ''result = follow_mobile_path(path)'' @ [CHR 0x0A])]"

definition pick_code :: "json \<Rightarrow> fpart list" where
  "pick_code pos =
     [Lit (CHR 0x0A # ''result = pick_object(''), Fmt pos, Lit ('', 0.1, 0.2)'' @ [CHR 0x0A])]"

definition place_code :: "json \<Rightarrow> fpart list" where
  "place_code pos =
     [Lit (CHR 0x0A # ''result = place_object(''), Fmt pos, Lit ('', 0.1, 0.2)'' @ [CHR 0x0A])]"

definition go_to_object :: "server \<Rightarrow> json \<Rightarrow> world \<Rightarrow> (error + unit) \<times> world" where
  "go_to_object srv target w =
     (case json_getitem target ''pos'' of
        Inl e \<Rightarrow> (Inl e, w)
      | Inr pos \<Rightarrow> send_action srv (run_code (go_to_code pos)) w)"

definition pick_object :: "server \<Rightarrow> json \<Rightarrow> world \<Rightarrow> (error + unit) \<times> world" where
  "pick_object srv target w =
     (case json_getitem target ''pos'' of
        Inl e \<Rightarrow> (Inl e, w)
      | Inr pos \<Rightarrow> send_action srv (run_code (pick_code pos)) w)"

definition place_object :: "server \<Rightarrow> json \<Rightarrow> world \<Rightarrow> (error + unit) \<times> world" where
  "place_object srv target w =
     (case json_getitem target ''pos'' of
        Inl e \<Rightarrow> (Inl e, w)
      | Inr pos \<Rightarrow> send_action srv (run_code (place_code pos)) w)"

subsection \<open>The environment snapshot\<close>

text \<open>
  \<^verbatim>\<open>
  def __init__(self, url="http://127.0.0.1:8800"):
      response = requests.get(f"{url}/env")
      self.object_map = response.json().get("objects", [])
  \<close>
  The environment endpoint answers with a JSON object whose members are JSON objects;
  the program reads the member \<open>objects\<close> only, the mapping from names to objects.
  So \<open>object_map\<close> is either that mapping or the default of \<open>.get\<close>, the empty
  list.
\<close>

datatype object_map =
    ObjDict "(string \<times> json) list"
  | ObjEmptyList

datatype env_reply =
    EnvNoReply
  | EnvNotJson
  | EnvJson "(string \<times> (string \<times> json) list) list"

definition init :: "env_reply \<Rightarrow> error + object_map" where
  "init r =
     (case r of
        EnvNoReply \<Rightarrow> Inl RequestException
      | EnvNotJson \<Rightarrow> Inl JSONDecodeError
      | EnvJson body \<Rightarrow>
          (case map_of body ''objects'' of
             None \<Rightarrow> Inr ObjEmptyList
           | Some objects \<Rightarrow> Inr (ObjDict objects)))"

text \<open>
  \<open>target_name in self.object_map\<close>. A dict hashes the key first, and a list or a
  dict (a reference) is unhashable; its keys are strings, so only a string can be
  found. The empty list has no element to compare with.
\<close>

definition contains :: "object_map \<Rightarrow> val \<Rightarrow> error + bool" where
  "contains om x =
     (case om of
        ObjEmptyList \<Rightarrow> Inr False
      | ObjDict m \<Rightarrow>
          (case x of
             VRef a \<Rightarrow> Inl TypeError
           | VStr s \<Rightarrow> Inr (map_of m s \<noteq> None)
           | _ \<Rightarrow> Inr False))"

text \<open>\<open>list(self.object_map.keys())\<close>: a list has no \<open>keys\<close>.\<close>

definition keys :: "object_map \<Rightarrow> error + string list" where
  "keys om =
     (case om of
        ObjEmptyList \<Rightarrow> Inl AttributeError
      | ObjDict m \<Rightarrow> Inr (map fst m))"

text \<open>
  \<open>self.object_map[target_name]\<close>, reached only after \<open>contains\<close> answered
  \<open>True\<close>, that is for a dict and a string that is one of its keys.
\<close>

definition lookup_target :: "object_map \<Rightarrow> val \<Rightarrow> error + json" where
  "lookup_target om x =
     (case om of
        ObjEmptyList \<Rightarrow> Inl TypeError
      | ObjDict m \<Rightarrow>
          (case x of
             VStr s \<Rightarrow>
               (case map_of m s of
                  None \<Rightarrow> Inl (KeyError (MissingKey s))
                | Some t \<Rightarrow> Inr t)
           | _ \<Rightarrow> Inl TypeError))"

subsection \<open>Executing the sequence\<close>

text \<open>
  \<open>task.copy()\<close> allocates a new object with the same entries (a shallow copy);
  \<open>task_result["result"] = "Ok"\<close> writes to that object: \<open>AList.update\<close> replaces
  the value of a key in place, or appends the entry when the key is new, as a Python
  dict does.
\<close>

definition py_copy :: "val \<Rightarrow> world \<Rightarrow> (error + val) \<times> world" where
  "py_copy v w =
     (case v of
        VRef a \<Rightarrow>
          (case deref (heap w) a of
             None \<Rightarrow> (Inl Dangling, w)
           | Some ob \<Rightarrow> (Inr (VRef (length (heap w))), w\<lparr>heap := heap w @ [ob]\<rparr>))
      | _ \<Rightarrow> (Inl AttributeError, w))"

definition py_setitem :: "val \<Rightarrow> string \<Rightarrow> val \<Rightarrow> world \<Rightarrow> (error + unit) \<times> world" where
  "py_setitem v k x w =
     (case v of
        VRef a \<Rightarrow>
          (case deref (heap w) a of
             None \<Rightarrow> (Inl Dangling, w)
           | Some (OList vs) \<Rightarrow> (Inl TypeError, w)
           | Some (ODict d) \<Rightarrow>
               (Inr (), w\<lparr>heap := (heap w)[a := ODict (AList.update k x d)]\<rparr>))
      | _ \<Rightarrow> (Inl TypeError, w))"

text \<open>
  The dispatch on \<open>task["skill"]\<close>: the \<open>if\<close>/\<open>elif\<close> chain of \<open>execute\<close>.
\<close>

definition dispatch :: "server \<Rightarrow> val \<Rightarrow> json \<Rightarrow> world \<Rightarrow> (error + unit) \<times> world" where
  "dispatch srv skill target w =
     (if skill = VStr ''GoToObject'' then go_to_object srv target w
      else if skill = VStr ''PickObject'' then pick_object srv target w
      else if skill = VStr ''PlaceObject'' then place_object srv target w
      else (Inl (ValueError skill), w))"

text \<open>
  One pass through the body of the loop of \<open>execute\<close>:
  \<^verbatim>\<open>
      target_name = task["target"]
      if target_name not in self.object_map:
          available_objects = list(self.object_map.keys())
          error_msg = f"Object '{target_name}' not found. Available objects: {available_objects}"
          raise KeyError(error_msg)
      target = self.object_map[target_name]
      if task["skill"] == "GoToObject":
          self._go_to_object(target)
      elif task["skill"] == "PickObject":
          self._pick_object(target)
      elif task["skill"] == "PlaceObject":
          self._place_object(target)
      else:
          raise ValueError(f"Unknown skill: {task['skill']}")
      task_result = task.copy()
      task_result["result"] = "Ok"
      results.append(task_result)
  \<close>
  It returns the reference that is appended to \<open>results\<close>.
\<close>

definition exec_task :: "object_map \<Rightarrow> server \<Rightarrow> val \<Rightarrow> world \<Rightarrow> (error + val) \<times> world" where
  "exec_task om srv task w =
     (case py_getitem (heap w) task ''target'' of
        Inl e \<Rightarrow> (Inl e, w)
      | Inr target_name \<Rightarrow>
     (case contains om target_name of
        Inl e \<Rightarrow> (Inl e, w)
      | Inr False \<Rightarrow>
          (case keys om of
             Inl e \<Rightarrow> (Inl e, w)
           | Inr available_objects \<Rightarrow>
               (Inl (KeyError (ObjectNotFound target_name available_objects)), w))
      | Inr True \<Rightarrow>
     (case lookup_target om target_name of
        Inl e \<Rightarrow> (Inl e, w)
      | Inr target \<Rightarrow>
     (case py_getitem (heap w) task ''skill'' of
        Inl e \<Rightarrow> (Inl e, w)
      | Inr skill \<Rightarrow>
     (case dispatch srv skill target w of
        (Inl e, w1) \<Rightarrow> (Inl e, w1)
      | (Inr u, w1) \<Rightarrow>
     (case py_copy task w1 of
        (Inl e, w2) \<Rightarrow> (Inl e, w2)
      | (Inr task_result, w2) \<Rightarrow>
     (case py_setitem task_result ''result'' (VStr ''Ok'') w2 of
        (Inl e, w3) \<Rightarrow> (Inl e, w3)
      | (Inr u', w3) \<Rightarrow> (Inr task_result, w3))))))))"

fun run_tasks ::
  "object_map \<Rightarrow> server \<Rightarrow> val list \<Rightarrow> val list \<Rightarrow> world \<Rightarrow> (error + val list) \<times> world" where
  "run_tasks om srv results [] w = (Inr results, w)"
| "run_tasks om srv results (task # rest) w =
     (case exec_task om srv task w of
        (Inl e, w') \<Rightarrow> (Inl e, w')
      | (Inr task_result, w') \<Rightarrow> run_tasks om srv (results @ [task_result]) rest w')"

text \<open>
  \<^verbatim>\<open>
  def execute(self, task_outputs):
      task_sequence = self._make_task_sequence(task_outputs)
      results = []
      for task in task_sequence:
          ...
      return results
  \<close>
  The outcome is the exception raised or the list returned, together with the world
  the call leaves behind: the heap and the log of the posts made.
\<close>

definition execute :: "object_map \<Rightarrow> server \<Rightarrow> val \<Rightarrow> world \<Rightarrow> (error + val list) \<times> world" where
  "execute om srv task_outputs w =
     (case make_task_sequence (heap w) task_outputs of
        Inl e \<Rightarrow> (Inl e, w)
      | Inr task_sequence \<Rightarrow> run_tasks om srv [] task_sequence w)"

section \<open>The simulator's server (src/robot/llm_main.py)\<close>

subsection \<open>State\<close>

text \<open>
  \<open>code_repository.exec_code\<close> runs a code string against the simulator. It is not
  part of the modelled files, so it is a parameter: from the code string and the
  simulator it gives the simulator afterwards and how the call ended. A call returns,
  raises an exception of class \<open>Exception\<close> (kept as its text), or raises one that
  is not (\<open>SystemExit\<close>, which \<open>except Exception\<close> does not catch).
\<close>

datatype outcome = Returned | Raised string | Exited

type_synonym 'sim exec_code = "json \<Rightarrow> 'sim \<Rightarrow> outcome \<times> 'sim"

text \<open>What the worker prints.\<close>

datatype event =
    Received json
  | Completed
  | ExecutionError string
  | ProcessingError error

text \<open>
  The thread that runs \<open>process_actions\<close> is between two passes of its loop, or
  inside \<open>exec_code\<close> with a code string, or has ended.
\<close>

datatype worker = Polling | Executing json | Stopped

text \<open>
  \<open>history\<close> is not program state: it records, in the order they happen, the
  operations on \<open>actions_queue\<close> and the calls of \<open>exec_code\<close>, so that their
  order can be stated.
\<close>

datatype obs = Put json | Get json | Begin json | End

record 'sim server_state =
  actions_queue :: "json list"
  worker :: worker
  simulator :: 'sim
  printed :: "event list"
  history :: "obs list"

definition initial :: "'sim \<Rightarrow> 'sim server_state" where
  "initial sim =
     \<lparr>actions_queue = [], worker = Polling, simulator = sim, printed = [], history = []\<rparr>"

subsection \<open>The action endpoint\<close>

text \<open>
  \<open>k in j\<close> for a string \<open>k\<close>: a key of a dict, an element of a list, a
  substring of a string; nothing else is a container.
\<close>

definition json_contains :: "json \<Rightarrow> string \<Rightarrow> error + bool" where
  "json_contains j k =
     (case j of
        JDict d \<Rightarrow> Inr (map_of d k \<noteq> None)
      | JList js \<Rightarrow> Inr (List.member js (JStr k))
      | JStr s \<Rightarrow> Inr (sublist k s)
      | _ \<Rightarrow> Inl TypeError)"

text \<open>\<open>j.get(k)\<close>: only a dict has the method; a missing key gives \<open>None\<close>.\<close>

definition json_get :: "json \<Rightarrow> string \<Rightarrow> error + json" where
  "json_get j k =
     (case j of
        JDict d \<Rightarrow> Inr (case map_of d k of None \<Rightarrow> JNull | Some x \<Rightarrow> x)
      | _ \<Rightarrow> Inl AttributeError)"

text \<open>
  \<open>actions_queue.put\<close>: \<open>queue.Queue\<close> is a FIFO whose \<open>put\<close> and \<open>get\<close>
  are atomic; \<open>put\<close> adds at the back.
\<close>

definition put :: "json \<Rightarrow> 'sim server_state \<Rightarrow> 'sim server_state" where
  "put item s =
     s\<lparr>actions_queue := actions_queue s @ [item], history := history s @ [Put item]\<rparr>"

datatype response = JSONResponse nat json

text \<open>
  \<^verbatim>\<open>
  @app.post("/send_action")
  def receive_action(action: dict):
      if "action" in action and "type" in action["action"] and "payload" in action["action"]:
          actions_queue.put(action)
          return JSONResponse(status_code=status.HTTP_200_OK,
              content={"status": "success", "action_feedback": "good"})
      return JSONResponse(status_code=status.HTTP_400_BAD_REQUEST,
          content={"status": "error", "message": "Invalid action format"})
  \<close>
  The framework hands the function a request body that is a JSON object. \<open>and\<close>
  evaluates its right operand only when the left one is true.
\<close>

definition well_formed :: "(string \<times> json) list \<Rightarrow> error + bool" where
  "well_formed action =
     (case map_of action ''action'' of
        None \<Rightarrow> Inr False
      | Some a \<Rightarrow>
          (case json_contains a ''type'' of
             Inl e \<Rightarrow> Inl e
           | Inr False \<Rightarrow> Inr False
           | Inr True \<Rightarrow> json_contains a ''payload''))"

definition receive_action ::
  "(string \<times> json) list \<Rightarrow> 'sim server_state \<Rightarrow> (error + response) \<times> 'sim server_state" where
  "receive_action action s =
     (case well_formed action of
        Inl e \<Rightarrow> (Inl e, s)
      | Inr True \<Rightarrow>
          (Inr (JSONResponse 200
                  (JDict [(''status'', JStr ''success''), (''action_feedback'', JStr ''good'')])),
           put (JDict action) s)
      | Inr False \<Rightarrow>
          (Inr (JSONResponse 400
                  (JDict [(''status'', JStr ''error''), (''message'', JStr ''Invalid action format'')])),
           s))"

text \<open>
  The other producer, \<open>llm_command\<close>, puts an envelope of this form around the code
  it generated.
\<close>

definition llm_envelope :: "string \<Rightarrow> json" where
  "llm_envelope generated_code =
     JDict [(''action'',
       JDict [(''type'', JStr ''run_code''),
              (''payload'', JDict [(''code'', JStr generated_code)])])]"

subsection \<open>The dispatch worker\<close>

text \<open>
  \<^verbatim>\<open>
  def process_actions():
      while True:
          try:
              action = actions_queue.get(timeout=0.1)
              action = action["action"]
              print(f"Received Action:", action)
              if action["type"] == "run_code":
                  code_str = action["payload"].get("code")
                  try:
                      code_repository.exec_code(code_str)
                      print("Code execution completed successfully")
                  except Exception as e:
                      print(f"[EXECUTION ERROR]") ...
              actions_queue.task_done()
          except queue.Empty:
              continue
          except Exception as e:
              print(f"Error processing action: {e}")
  \<close>
  One pass of the loop is cut where \<open>exec_code\<close> is entered, since other threads
  run while the simulator executes: \<open>poll\<close> goes from the top of the loop to that
  call (or to the end of the pass when nothing is to be executed), \<open>finish\<close> from
  the end of the call to the end of the pass.
\<close>

definition processing_error :: "error \<Rightarrow> 'sim server_state \<Rightarrow> 'sim server_state" where
  "processing_error e s = s\<lparr>printed := printed s @ [ProcessingError e]\<rparr>"

definition handle_action :: "json \<Rightarrow> 'sim server_state \<Rightarrow> 'sim server_state" where
  "handle_action action s =
     (case json_getitem action ''type'' of
        Inl e \<Rightarrow> processing_error e s
      | Inr ty \<Rightarrow>
          if ty = JStr ''run_code'' then
            (case json_getitem action ''payload'' of
               Inl e \<Rightarrow> processing_error e s
             | Inr payload \<Rightarrow>
                 (case json_get payload ''code'' of
                    Inl e \<Rightarrow> processing_error e s
                  | Inr code_str \<Rightarrow>
                      s\<lparr>worker := Executing code_str, history := history s @ [Begin code_str]\<rparr>))
          else s)"

definition poll :: "'sim server_state \<Rightarrow> 'sim server_state" where
  "poll s =
     (case actions_queue s of
        [] \<Rightarrow> s
      | item # rest \<Rightarrow>
          (case json_getitem item ''action'' of
             Inl e \<Rightarrow>
               processing_error e
                 (s\<lparr>actions_queue := rest, history := history s @ [Get item]\<rparr>)
           | Inr action \<Rightarrow>
               handle_action action
                 (s\<lparr>actions_queue := rest, printed := printed s @ [Received action],
                    history := history s @ [Get item]\<rparr>)))"

definition finish :: "'sim exec_code \<Rightarrow> 'sim server_state \<Rightarrow> 'sim server_state" where
  "finish exec_code s =
     (case worker s of
        Executing code_str \<Rightarrow>
          (case exec_code code_str (simulator s) of
             (Returned, sim') \<Rightarrow>
               s\<lparr>worker := Polling, simulator := sim', printed := printed s @ [Completed],
                 history := history s @ [End]\<rparr>
           | (Raised msg, sim') \<Rightarrow>
               s\<lparr>worker := Polling, simulator := sim', printed := printed s @ [ExecutionError msg],
                 history := history s @ [End]\<rparr>
           | (Exited, sim') \<Rightarrow>
               s\<lparr>worker := Stopped, simulator := sim', history := history s @ [End]\<rparr>)
      | _ \<Rightarrow> s)"

text \<open>One whole pass of the loop, when nothing else runs in between.\<close>

definition pass :: "'sim exec_code \<Rightarrow> 'sim server_state \<Rightarrow> 'sim server_state" where
  "pass exec_code s = finish exec_code (poll s)"

text \<open>
  The threads that \<open>main\<close> starts and the request handlers interleave. A step of the
  system is a request to the action endpoint, a \<open>put\<close> by \<open>llm_command\<close>, or a
  step of the one thread that runs \<open>process_actions\<close>.
\<close>

inductive step :: "'sim exec_code \<Rightarrow> 'sim server_state \<Rightarrow> 'sim server_state \<Rightarrow> bool"
  for exec_code :: "'sim exec_code" where
    request: "receive_action action s = (r, s') \<Longrightarrow> step exec_code s s'"
  | command: "step exec_code s (put (llm_envelope generated_code) s)"
  | polls: "worker s = Polling \<Longrightarrow> step exec_code s (poll s)"
  | finishes: "worker s = Executing code_str \<Longrightarrow> step exec_code s (finish exec_code s)"

inductive reachable :: "'sim exec_code \<Rightarrow> 'sim \<Rightarrow> 'sim server_state \<Rightarrow> bool"
  for exec_code :: "'sim exec_code" and sim :: 'sim where
    start: "reachable exec_code sim (initial sim)"
  | next_step: "reachable exec_code sim s \<Longrightarrow> step exec_code s s' \<Longrightarrow> reachable exec_code sim s'"

section \<open>Notions used in the properties\<close>

subsection \<open>Heaps without dangling references\<close>

text \<open>Every reference held by a Python object resolves: the heap is closed.\<close>

definition wf_val :: "heap \<Rightarrow> val \<Rightarrow> bool" where
  "wf_val h v = (case v of VRef a \<Rightarrow> a < length h | _ \<Rightarrow> True)"

definition wf_obj :: "heap \<Rightarrow> obj \<Rightarrow> bool" where
  "wf_obj h ob =
     (case ob of
        OList vs \<Rightarrow> list_all (wf_val h) vs
      | ODict d \<Rightarrow> list_all (\<lambda>kv. wf_val h (snd kv)) d)"

definition closed_heap :: "heap \<Rightarrow> bool" where
  "closed_heap h = list_all (wf_obj h) h"

subsection \<open>Task groups, results, errors\<close>

text \<open>
  \<open>g\<close> is a task group with the tasks \<open>ts\<close>: a dict with a \<open>subgoal\<close> entry
  whose \<open>tasks\<close> entry is a list holding \<open>ts\<close>.
\<close>

definition is_group :: "heap \<Rightarrow> val \<Rightarrow> val list \<Rightarrow> bool" where
  "is_group h g ts =
     (\<exists>a d subgoal l. g = VRef a \<and> deref h a = Some (ODict d)
        \<and> map_of d ''subgoal'' = Some subgoal
        \<and> map_of d ''tasks'' = Some (VRef l) \<and> deref h l = Some (OList ts))"

text \<open>
  \<open>task\<close> is a dict named \<open>name\<close> as its target (and \<open>skill\<close> as its skill).
\<close>

definition has_target :: "heap \<Rightarrow> val \<Rightarrow> val \<Rightarrow> bool" where
  "has_target h task name =
     (\<exists>a d. task = VRef a \<and> deref h a = Some (ODict d) \<and> map_of d ''target'' = Some name)"

definition has_skill :: "heap \<Rightarrow> val \<Rightarrow> val \<Rightarrow> bool" where
  "has_skill h task skill =
     (\<exists>a d. task = VRef a \<and> deref h a = Some (ODict d) \<and> map_of d ''skill'' = Some skill)"

text \<open>
  \<open>ob\<close> is the task dict \<open>task\<close> of the heap \<open>h\<close> with \<open>result\<close> set to
  \<open>"Ok"\<close>.
\<close>

definition result_of :: "heap \<Rightarrow> val \<Rightarrow> obj \<Rightarrow> bool" where
  "result_of h task ob =
     (\<exists>a d. task = VRef a \<and> deref h a = Some (ODict d)
        \<and> ob = ODict (AList.update ''result'' (VStr ''Ok'') d))"

text \<open>The two errors that \<open>execute\<close> raises itself.\<close>

definition unknown_object :: "error \<Rightarrow> bool" where
  "unknown_object e = (case e of KeyError (ObjectNotFound x names) \<Rightarrow> True | _ \<Rightarrow> False)"

definition unsupported_skill :: "error \<Rightarrow> bool" where
  "unsupported_skill e = (case e of ValueError skill \<Rightarrow> True | _ \<Rightarrow> False)"

text \<open>
  What a skill method called with \<open>target\<close> leaves behind: nothing when the target
  has no \<open>pos\<close>, and else one post of the command built from \<open>pos\<close>.
\<close>

definition posts ::
  "json \<Rightarrow> (json \<Rightarrow> fpart list) \<Rightarrow> (error + unit) \<Rightarrow> world \<Rightarrow> world \<Rightarrow> bool" where
  "posts target code r w w' =
     (case json_getitem target ''pos'' of
        Inl e \<Rightarrow> r = Inl e \<and> w' = w
      | Inr pos \<Rightarrow> w' = w\<lparr>sent := sent w @ [run_code (code pos)]\<rparr>)"


text \<open>
  One task carried out: \<open>task\<close> is a dict of the heap, one body was posted, and
  \<open>task_result\<close> is a new object, the copy of the dict with its \<open>result\<close>.
\<close>

definition completed :: "val \<Rightarrow> val \<Rightarrow> world \<Rightarrow> world \<Rightarrow> bool" where
  "completed task task_result w w' =
     (\<exists>a d p. task = VRef a \<and> deref (heap w) a = Some (ODict d)
        \<and> task_result = VRef (length (heap w))
        \<and> heap w' = heap w @ [ODict (AList.update ''result'' (VStr ''Ok'') d)]
        \<and> sent w' = sent w @ [p])"

subsection \<open>Reading the history of the server\<close>

fun puts :: "obs list \<Rightarrow> json list" where
  "puts [] = []"
| "puts (Put x # h) = x # puts h"
| "puts (ob # h) = puts h"

fun gets :: "obs list \<Rightarrow> json list" where
  "gets [] = []"
| "gets (Get x # h) = x # gets h"
| "gets (ob # h) = gets h"

fun begins :: "obs list \<Rightarrow> json list" where
  "begins [] = []"
| "begins (Begin c # h) = c # begins h"
| "begins (ob # h) = begins h"

text \<open>
  \<open>in_flight b h\<close>: whether a call of \<open>exec_code\<close> is under way after \<open>h\<close>, when
  \<open>b\<close> says whether one was before. \<open>serial b h\<close>: no call begins in \<open>h\<close> while
  another is under way, and none ends that did not begin.
\<close>

fun in_flight :: "bool \<Rightarrow> obs list \<Rightarrow> bool" where
  "in_flight b [] = b"
| "in_flight b (Begin c # h) = in_flight True h"
| "in_flight b (End # h) = in_flight False h"
| "in_flight b (ob # h) = in_flight b h"

fun serial :: "bool \<Rightarrow> obs list \<Rightarrow> bool" where
  "serial b [] = True"
| "serial b (Begin c # h) = (\<not> b \<and> serial True h)"
| "serial b (End # h) = (b \<and> serial False h)"
| "serial b (ob # h) = serial b h"

text \<open>
  The code string the worker hands to \<open>exec_code\<close> for a queued envelope, if any:
  the envelope has an \<open>action\<close> of type \<open>"run_code"\<close> whose payload is a dict.
\<close>

definition envelope_code :: "json \<Rightarrow> json option" where
  "envelope_code item =
     (case json_getitem item ''action'' of
        Inl e \<Rightarrow> None
      | Inr action \<Rightarrow>
          (case json_getitem action ''type'' of
             Inl e \<Rightarrow> None
           | Inr ty \<Rightarrow>
               if ty = JStr ''run_code'' then
                 (case json_getitem action ''payload'' of
                    Inl e \<Rightarrow> None
                  | Inr payload \<Rightarrow>
                      (case json_get payload ''code'' of
                         Inl e \<Rightarrow> None
                       | Inr code_str \<Rightarrow> Some code_str))
               else None))"

subsection \<open>Example data\<close>

text \<open>
  Three tasks A, B, C at the addresses 0, 1, 2; the groups of the specification's
  example, \<open>[{tasks:[A,B]},{tasks:[C]}]\<close>, at 7; the same groups with a subgoal
  each at 10.
\<close>

definition example_heap :: heap where
  "example_heap =
     [ODict [(''skill'', VStr ''GoToObject''), (''target'', VStr ''table'')],
      ODict [(''skill'', VStr ''PickObject''), (''target'', VStr ''red_cup'')],
      ODict [(''skill'', VStr ''PlaceObject''), (''target'', VStr ''table'')],
      OList [VRef 0, VRef 1],
      OList [VRef 2],
      ODict [(''tasks'', VRef 3)],
      ODict [(''tasks'', VRef 4)],
      OList [VRef 5, VRef 6],
      ODict [(''subgoal'', VStr ''fetch''), (''tasks'', VRef 3)],
      ODict [(''subgoal'', VStr ''put''), (''tasks'', VRef 4)],
      OList [VRef 8, VRef 9]]"

text \<open>
  A snapshot with two objects, and the snapshot of the specification's example. A
  server that answers every post with \<open>{"result": "ok"}\<close>.
\<close>

definition example_objects :: object_map where
  "example_objects =
     ObjDict [(''table'', JDict [(''pos'', JList [JNum 1, JNum 2, JNum 0])]),
              (''red_cup'', JDict [(''pos'', JList [JNum 3, JNum 4, JNum 1])])]"

definition red_cup_only :: object_map where
  "red_cup_only = ObjDict [(''red_cup'', JDict [(''pos'', JList [JNum 3, JNum 4, JNum 1])])]"

definition ok_server :: server where
  "ok_server posted p = Json (JDict [(''result'', JStr ''ok'')])"

text \<open>
  A group of two tasks at 4: the first (address 0) names a known object and a skill
  that does not exist, the second (address 1) a known skill and the object
  \<open>blue_mug\<close>, which no snapshot here has.
\<close>

definition wave_heap :: heap where
  "wave_heap =
     [ODict [(''skill'', VStr ''Wave''), (''target'', VStr ''red_cup'')],
      ODict [(''skill'', VStr ''PickObject''), (''target'', VStr ''blue_mug'')],
      OList [VRef 0, VRef 1],
      ODict [(''subgoal'', VStr ''greet''), (''tasks'', VRef 2)],
      OList [VRef 3]]"

text \<open>
  A group of three tasks at 5: go to the table (address 0), pick up \<open>blue_mug\<close>
  (address 1), place on the table (address 2). A group with the second task alone
  at 8.
\<close>

definition mug_heap :: heap where
  "mug_heap =
     [ODict [(''skill'', VStr ''GoToObject''), (''target'', VStr ''table'')],
      ODict [(''skill'', VStr ''PickObject''), (''target'', VStr ''blue_mug'')],
      ODict [(''skill'', VStr ''PlaceObject''), (''target'', VStr ''table'')],
      OList [VRef 0, VRef 1, VRef 2],
      ODict [(''subgoal'', VStr ''fetch''), (''tasks'', VRef 3)],
      OList [VRef 4],
      OList [VRef 1],
      ODict [(''subgoal'', VStr ''pick''), (''tasks'', VRef 6)],
      OList [VRef 7]]"

text \<open>
  The world that carrying out the first task of \<open>mug_heap\<close> leaves behind, with
  \<open>example_objects\<close> and \<open>ok_server\<close>: one new object, the result of the task,
  and one post.
\<close>

definition mug_start :: world where
  "mug_start = \<lparr>heap = mug_heap, sent = []\<rparr>"

definition mug_after_first :: world where
  "mug_after_first =
     \<lparr>heap = mug_heap @ [ODict [(''skill'', VStr ''GoToObject''), (''target'', VStr ''table''),
                                (''result'', VStr ''Ok'')]],
      sent = [run_code (go_to_code (JList [JNum 1, JNum 2, JNum 0]))]\<rparr>"

subsection \<open>Example data for the server\<close>

text \<open>The two answers of the action endpoint.\<close>

definition accepted :: response where
  "accepted = JSONResponse 200
     (JDict [(''status'', JStr ''success''), (''action_feedback'', JStr ''good'')])"

definition rejected :: response where
  "rejected = JSONResponse 400
     (JDict [(''status'', JStr ''error''), (''message'', JStr ''Invalid action format'')])"

text \<open>
  An envelope whose type is not \<open>"run_code"\<close>, and the server after it was put on
  the queue. An \<open>exec_code\<close> that raises on the code \<open>a\<close> and returns on any
  other. A server with two envelopes queued, for the codes \<open>a\<close> and \<open>b\<close>, and
  the server one pass and one poll of the worker later.
\<close>

definition fly_envelope :: "(string \<times> json) list" where
  "fly_envelope = [(''action'', JDict [(''type'', JStr ''fly''), (''payload'', JDict [])])]"

definition raising :: "unit exec_code" where
  "raising code_str sim =
     (if code_str = JStr ''a'' then (Raised ''boom'', sim) else (Returned, sim))"

definition two_queued :: "unit server_state" where
  "two_queued = put (llm_envelope ''b'') (put (llm_envelope ''a'') (initial ()))"

definition fly_queued :: "unit server_state" where
  "fly_queued = put (JDict fly_envelope) (initial ())"

definition example_run :: "unit server_state" where
  "example_run = poll (pass raising two_queued)"

subsection \<open>The invariant of the dispatch\<close>

text \<open>
  What holds of the history in every reachable state: calls of \<open>exec_code\<close> do not
  overlap, one is under way exactly when the worker is inside \<open>exec_code\<close>, the
  envelopes taken from the queue and those still in it are the envelopes put, in that
  order, and the calls begun are those of the envelopes taken, in that order.
\<close>

definition dispatch_invariant :: "'sim server_state \<Rightarrow> bool" where
  "dispatch_invariant s = (serial False (history s)
     \<and> in_flight False (history s) = (\<exists>c. worker s = Executing c)
     \<and> puts (history s) = gets (history s) @ actions_queue s
     \<and> begins (history s) = List.map_filter envelope_code (gets (history s)))"

section \<open>Properties of the task executor\<close>

subsection \<open>Flattening\<close>

lemma append_tasks_eq: "append_tasks task_sequence ts = task_sequence @ ts"
  by (induction ts arbitrary: task_sequence) simp_all

lemma is_group_flatten:
  assumes "is_group h g ts"
  shows "flatten_groups h acc (g # rest) = flatten_groups h (acc @ ts) rest"
  using assms by (auto simp: is_group_def py_getitem_def py_iter_def append_tasks_eq)

lemma flatten_groups_concat:
  "list_all2 (is_group h) groups tss \<Longrightarrow> flatten_groups h acc groups = Inr (acc @ concat tss)"
proof (induction groups tss arbitrary: acc rule: list_all2_induct)
  case Nil
  then show ?case by simp
next
  case (Cons g groups ts tss)
  then show ?case by (simp add: is_group_flatten del: flatten_groups.simps)
qed

text \<open>
  C5, as stated, fails on its own example: the groups \<open>[{tasks:[A,B]},{tasks:[C]}]\<close>
  have no \<open>subgoal\<close> entry, and \<open>_make_task_sequence\<close> reads
  \<open>task_output["subgoal"]\<close> of every group, so it raises \<open>KeyError\<close> instead of
  returning \<open>[A,B,C]\<close>.
\<close>

theorem flatten_example_raises:
  "make_task_sequence example_heap (VRef 7) = Inl (KeyError (MissingKey ''subgoal''))
   \<and> make_task_sequence example_heap (VRef 7) \<noteq> Inr [VRef 0, VRef 1, VRef 2]"
  by (simp add: example_heap_def make_task_sequence_def py_iter_def py_getitem_def deref_def)

text \<open>
  C5, amended: for every list of task groups in which each group has a \<open>subgoal\<close>
  entry and a \<open>tasks\<close> list, \<open>_make_task_sequence\<close> returns exactly the
  concatenation of the groups' \<open>tasks\<close> lists in input order: the same references,
  nothing sorted, dropped or reordered.
\<close>

theorem flatten_concat:
  assumes "deref h a = Some (OList groups)"
    and "list_all2 (is_group h) groups tss"
  shows "make_task_sequence h (VRef a) = Inr (concat tss)"
  using assms by (simp add: make_task_sequence_def py_iter_def flatten_groups_concat)

theorem flatten_concat_witness:
  "deref example_heap 10 = Some (OList [VRef 8, VRef 9])
   \<and> list_all2 (is_group example_heap) [VRef 8, VRef 9] [[VRef 0, VRef 1], [VRef 2]]
   \<and> make_task_sequence example_heap (VRef 10) = Inr [VRef 0, VRef 1, VRef 2]"
  using flatten_concat [of example_heap 10 "[VRef 8, VRef 9]" "[[VRef 0, VRef 1], [VRef 2]]"]
  by (simp add: is_group_def example_heap_def deref_def)

subsection \<open>The effects of a skill and of one task\<close>

lemma send_action_world:
  "send_action srv p w = (r, w') \<Longrightarrow> w' = w\<lparr>sent := sent w @ [p]\<rparr>"
  by (auto simp: send_action_def requests_post_def split: reply.splits sum.splits)

lemma send_action_error:
  "send_action srv p w = (Inl e, w') \<Longrightarrow>
     e = RequestException \<or> e = JSONDecodeError \<or> e = TypeError \<or> e = KeyError (MissingKey ''result'')"
  by (auto simp: send_action_def requests_post_def response_json_def json_getitem_def
      split: reply.splits sum.splits json.splits option.splits)

lemma json_getitem_error:
  "json_getitem j k = Inl e \<Longrightarrow> e = TypeError \<or> e = KeyError (MissingKey k)"
  by (auto simp: json_getitem_def split: json.splits option.splits)

lemma go_to_object_world: "go_to_object srv target w = (r, w') \<Longrightarrow> posts target go_to_code r w w'"
  by (auto simp: go_to_object_def posts_def dest: send_action_world split: sum.splits)

lemma pick_object_world: "pick_object srv target w = (r, w') \<Longrightarrow> posts target pick_code r w w'"
  by (auto simp: pick_object_def posts_def dest: send_action_world split: sum.splits)

lemma place_object_world: "place_object srv target w = (r, w') \<Longrightarrow> posts target place_code r w w'"
  by (auto simp: place_object_def posts_def dest: send_action_world split: sum.splits)

lemma skill_error:
  "go_to_object srv target w = (Inl e, w') \<Longrightarrow> \<not> unsupported_skill e \<and> \<not> unknown_object e"
  "pick_object srv target w = (Inl e, w') \<Longrightarrow> \<not> unsupported_skill e \<and> \<not> unknown_object e"
  "place_object srv target w = (Inl e, w') \<Longrightarrow> \<not> unsupported_skill e \<and> \<not> unknown_object e"
  by (auto simp: go_to_object_def pick_object_def place_object_def unsupported_skill_def
      unknown_object_def split: sum.splits dest!: send_action_error json_getitem_error)

lemma dispatch_heap: "dispatch srv skill target w = (r, w') \<Longrightarrow> heap w' = heap w"
  by (auto simp: dispatch_def posts_def split: if_splits sum.splits
      dest!: go_to_object_world pick_object_world place_object_world)

lemma dispatch_sent:
  "dispatch srv skill target w = (r, w') \<Longrightarrow> sent w' = sent w \<or> (\<exists>p. sent w' = sent w @ [p])"
  by (auto simp: dispatch_def posts_def split: if_splits sum.splits
      dest!: go_to_object_world pick_object_world place_object_world)

lemma dispatch_ok:
  "dispatch srv skill target w = (Inr u, w') \<Longrightarrow> \<exists>p. w' = w\<lparr>sent := sent w @ [p]\<rparr>"
  by (auto simp: dispatch_def posts_def split: if_splits sum.splits
      dest!: go_to_object_world pick_object_world place_object_world)

lemma dispatch_unsupported:
  "dispatch srv skill target w = (Inl e, w') \<Longrightarrow> unsupported_skill e \<Longrightarrow>
     w' = w \<and> e = ValueError skill
     \<and> skill \<noteq> VStr ''GoToObject'' \<and> skill \<noteq> VStr ''PickObject'' \<and> skill \<noteq> VStr ''PlaceObject''"
  by (auto simp: dispatch_def split: if_splits dest: skill_error)

lemma dispatch_not_unknown:
  "dispatch srv skill target w = (Inl e, w') \<Longrightarrow> \<not> unknown_object e"
  by (auto simp: dispatch_def unknown_object_def split: if_splits dest: skill_error)

lemma py_getitem_Inr:
  "py_getitem h v k = Inr x \<Longrightarrow> \<exists>a d. v = VRef a \<and> deref h a = Some (ODict d) \<and> map_of d k = Some x"
  by (auto simp: py_getitem_def split: val.splits option.splits obj.splits)

lemma py_getitem_error:
  "py_getitem h v k = Inl e \<Longrightarrow> \<not> unsupported_skill e \<and> \<not> unknown_object e"
  by (auto simp: py_getitem_def unsupported_skill_def unknown_object_def
      split: val.splits option.splits obj.splits)

lemma finish_ok:
  assumes "deref (heap w1) a = Some (ODict d)"
  shows "(case py_copy (VRef a) w1 of
        (Inl e, w2) \<Rightarrow> (Inl e, w2)
      | (Inr task_result, w2) \<Rightarrow>
     (case py_setitem task_result ''result'' (VStr ''Ok'') w2 of
        (Inl e, w3) \<Rightarrow> (Inl e, w3)
      | (Inr u', w3) \<Rightarrow> (Inr task_result, w3)))
     = (Inr (VRef (length (heap w1))),
        w1\<lparr>heap := heap w1 @ [ODict (AList.update ''result'' (VStr ''Ok'') d)]\<rparr>)"
  using assms by (simp add: py_copy_def py_setitem_def deref_def)

lemma exec_task_after_dispatch:
  assumes "py_getitem (heap w) task ''skill'' = Inr skill"
    and "dispatch srv skill target w = (Inr u, w1)"
  shows "\<exists>a d p. task = VRef a \<and> deref (heap w) a = Some (ODict d) \<and>
     w1 = w\<lparr>sent := sent w @ [p]\<rparr> \<and> (case py_copy task w1 of
        (Inl e, w2) \<Rightarrow> (Inl e, w2)
      | (Inr task_result, w2) \<Rightarrow>
     (case py_setitem task_result ''result'' (VStr ''Ok'') w2 of
        (Inl e, w3) \<Rightarrow> (Inl e, w3)
      | (Inr u', w3) \<Rightarrow> (Inr task_result, w3))) = (Inr (VRef (length (heap w))),
        w1\<lparr>heap := heap w @ [ODict (AList.update ''result'' (VStr ''Ok'') d)]\<rparr>)"
proof -
  from assms(1) obtain a d where a: "task = VRef a" "deref (heap w) a = Some (ODict d)"
    by (auto dest: py_getitem_Inr)
  from assms(2) obtain p where w1: "w1 = w\<lparr>sent := sent w @ [p]\<rparr>"
    by (auto dest: dispatch_ok)
  with a have "deref (heap w1) a = Some (ODict d)" by simp
  from finish_ok [OF this] a w1 show ?thesis
    by (intro exI [of _ a] exI [of _ d] exI [of _ p]) simp
qed

lemma exec_task_Inr:
  assumes "exec_task om srv task w = (Inr tr, w')"
  shows "completed task tr w w'"
  using assms unfolding exec_task_def completed_def
  by (auto split: sum.splits bool.splits prod.splits dest!: exec_task_after_dispatch)

lemma exec_task_Inl:
  assumes "exec_task om srv task w = (Inl e, w')"
  shows "heap w' = heap w \<and> (sent w' = sent w \<or> (\<exists>p. sent w' = sent w @ [p]))"
  using assms unfolding exec_task_def
  by (auto split: sum.splits bool.splits prod.splits
        dest: dispatch_heap dispatch_sent exec_task_after_dispatch)

subsection \<open>The effects of the loop\<close>

lemma exec_task_validation:
  assumes "exec_task om srv task w = (Inl e, w')" and "unknown_object e \<or> unsupported_skill e"
  shows "w' = w"
  using assms unfolding exec_task_def
  by (auto split: sum.splits bool.splits prod.splits
        dest: dispatch_unsupported dispatch_not_unknown exec_task_after_dispatch)

lemma run_tasks_append:
  "run_tasks om srv rs (xs @ ys) w =
     (case run_tasks om srv rs xs w of
        (Inl e, w') \<Rightarrow> (Inl e, w')
      | (Inr rs', w') \<Rightarrow> run_tasks om srv rs' ys w')"
  by (induction xs arbitrary: rs w) (auto split: sum.splits prod.splits)

lemma run_tasks_failure:
  "run_tasks om srv rs ts w = (Inl e, w') \<Longrightarrow>
     \<exists>before task rest rs' w1. ts = before @ task # rest
       \<and> run_tasks om srv rs before w = (Inr rs', w1)
       \<and> exec_task om srv task w1 = (Inl e, w')"
proof (induction ts arbitrary: rs w)
  case Nil
  then show ?case by simp
next
  case (Cons t ts)
  show ?case
  proof (cases "exec_task om srv t w")
    case (Pair r w1)
    show ?thesis
    proof (cases r)
      case (Inl e')
      with Pair Cons.prems have "exec_task om srv t w = (Inl e, w')" by simp
      then have "t # ts = [] @ t # ts \<and> run_tasks om srv rs [] w = (Inr rs, w)
          \<and> exec_task om srv t w = (Inl e, w')" by simp
      then show ?thesis by blast
    next
      case (Inr tr)
      with Pair Cons.prems have "run_tasks om srv (rs @ [tr]) ts w1 = (Inl e, w')" by simp
      from Cons.IH [OF this] obtain before task rest rs' w2 where
        *: "ts = before @ task # rest" "run_tasks om srv (rs @ [tr]) before w1 = (Inr rs', w2)"
           "exec_task om srv task w2 = (Inl e, w')" by blast
      from * Pair Inr have "t # ts = (t # before) @ task # rest
          \<and> run_tasks om srv rs (t # before) w = (Inr rs', w2)
          \<and> exec_task om srv task w2 = (Inl e, w')" by simp
      then show ?thesis by blast
    qed
  qed
qed

lemma run_tasks_sent:
  "run_tasks om srv rs ts w = (Inr rs', w') \<Longrightarrow> length (sent w') = length (sent w) + length ts"
proof (induction ts arbitrary: rs w)
  case Nil
  then show ?case by simp
next
  case (Cons t ts)
  from Cons.prems obtain tr w1 where
    t: "exec_task om srv t w = (Inr tr, w1)" and r: "run_tasks om srv (rs @ [tr]) ts w1 = (Inr rs', w')"
    by (auto split: sum.splits prod.splits)
  from t have "length (sent w1) = length (sent w) + 1"
    by (auto dest!: exec_task_Inr simp: completed_def)
  with Cons.IH [OF r] show ?case by simp
qed

lemma run_tasks_heap_length:
  "run_tasks om srv rs ts w = (Inr rs', w') \<Longrightarrow> length (heap w') = length (heap w) + length ts"
proof (induction ts arbitrary: rs w)
  case Nil
  then show ?case by simp
next
  case (Cons t ts)
  from Cons.prems obtain tr w1 where
    t: "exec_task om srv t w = (Inr tr, w1)" and r: "run_tasks om srv (rs @ [tr]) ts w1 = (Inr rs', w')"
    by (auto split: sum.splits prod.splits)
  from t have "length (heap w1) = length (heap w) + 1"
    by (auto dest!: exec_task_Inr simp: completed_def)
  with Cons.IH [OF r] show ?case by simp
qed

lemma exec_task_prefix: "exec_task om srv task w = (r, w') \<Longrightarrow> prefix (heap w) (heap w')"
  by (cases r) (auto dest!: exec_task_Inr exec_task_Inl simp: completed_def)

lemma run_tasks_prefix:
  "run_tasks om srv rs ts w = (r, w') \<Longrightarrow> prefix (heap w) (heap w')"
proof (induction ts arbitrary: rs w)
  case Nil
  then show ?case by simp
next
  case (Cons t ts)
  show ?case
  proof (cases "exec_task om srv t w")
    case (Pair r1 w1)
    then have p: "prefix (heap w) (heap w1)" by (rule exec_task_prefix)
    show ?thesis
    proof (cases r1)
      case (Inl e)
      with Pair Cons.prems p show ?thesis by simp
    next
      case (Inr tr)
      with Pair Cons.prems have "run_tasks om srv (rs @ [tr]) ts w1 = (r, w')" by simp
      from Cons.IH [OF this] p show ?thesis by (rule prefix_order.trans [rotated])
    qed
  qed
qed

lemma deref_append: "a < length h \<Longrightarrow> deref (h @ ext) a = deref h a"
  by (simp add: deref_def nth_append)

lemma deref_Some_less: "deref h a = Some ob \<Longrightarrow> a < length h"
  by (simp add: deref_def split: if_splits)

lemma deref_Some_append: "deref h a = Some ob \<Longrightarrow> deref (h @ ext) a = Some ob"
  by (simp add: deref_def nth_append split: if_splits)

lemma has_target_prefix:
  "has_target h task name \<Longrightarrow> prefix h h' \<Longrightarrow> has_target h' task name"
  by (auto simp: has_target_def prefix_def deref_Some_append)

lemma has_target_getitem: "has_target h task name \<Longrightarrow> py_getitem h task ''target'' = Inr name"
  by (auto simp: has_target_def py_getitem_def)

lemma exec_task_unknown_object:
  assumes "has_target (heap w) task (VStr name)" and "map_of m name = None"
  shows "exec_task (ObjDict m) srv task w
           = (Inl (KeyError (ObjectNotFound (VStr name) (map fst m))), w)"
  using assms by (simp add: exec_task_def has_target_getitem contains_def keys_def)

lemma py_iter_error:
  "py_iter h v = Inl e \<Longrightarrow> \<not> unsupported_skill e \<and> \<not> unknown_object e"
  by (auto simp: py_iter_def unsupported_skill_def unknown_object_def
      split: val.splits option.splits obj.splits)

lemma flatten_groups_error:
  "flatten_groups h acc groups = Inl e \<Longrightarrow> \<not> unsupported_skill e \<and> \<not> unknown_object e"
  by (induction groups arbitrary: acc)
     (auto split: sum.splits dest: py_getitem_error py_iter_error)

lemma make_task_sequence_error:
  "make_task_sequence h v = Inl e \<Longrightarrow> \<not> unsupported_skill e \<and> \<not> unknown_object e"
  by (auto simp: make_task_sequence_def split: sum.splits
      dest: py_iter_error flatten_groups_error)

lemma exec_task_empty_list:
  "\<exists>e. exec_task ObjEmptyList srv task w = (Inl e, w)"
  by (auto simp: exec_task_def contains_def keys_def split: sum.splits)

lemma exec_task_empty_list_target:
  "has_target (heap w) task name \<Longrightarrow> exec_task ObjEmptyList srv task w = (Inl AttributeError, w)"
  by (simp add: exec_task_def has_target_getitem contains_def keys_def)

subsection \<open>Runs of the examples\<close>

lemmas exec_defs = execute_def make_task_sequence_def py_iter_def py_getitem_def deref_def
  exec_task_def contains_def keys_def lookup_target_def dispatch_def go_to_object_def
  pick_object_def place_object_def send_action_def requests_post_def response_json_def
  json_getitem_def py_copy_def py_setitem_def append_tasks_eq

lemma mug_sequence: "make_task_sequence (heap mug_start) (VRef 5) = Inr [VRef 0, VRef 1, VRef 2]"
  by (simp add: mug_start_def mug_heap_def make_task_sequence_def py_iter_def py_getitem_def
      deref_def append_tasks_eq)

lemma mug_first_task:
  "run_tasks example_objects ok_server [] [VRef 0] mug_start = (Inr [VRef 9], mug_after_first)"
  by (simp add: exec_defs mug_start_def mug_after_first_def example_objects_def ok_server_def
      mug_heap_def)

lemma mug_second_task:
  "exec_task example_objects ok_server (VRef 1) mug_after_first
     = (Inl (KeyError (ObjectNotFound (VStr ''blue_mug'') [''table'', ''red_cup''])),
        mug_after_first)"
  by (simp add: exec_defs mug_after_first_def example_objects_def mug_heap_def)

lemma mug_run:
  "execute example_objects ok_server (VRef 5) mug_start
     = (Inl (KeyError (ObjectNotFound (VStr ''blue_mug'') [''table'', ''red_cup''])),
        mug_after_first)"
  using mug_sequence mug_first_task mug_second_task
  by (simp add: execute_def split: prod.splits sum.splits)

subsection \<open>Unknown objects\<close>

text \<open>
  C2, as stated, fails in two ways. First, a task list can contain a task whose
  target is absent from the snapshot and \<open>execute\<close> still raises another error,
  because the tasks are validated one at a time in order and the first failure ends
  the call: in \<open>wave_heap\<close> the second task names \<open>blue_mug\<close>, which the snapshot
  lacks, but the first task has the skill \<open>Wave\<close>, and \<open>execute\<close> raises
  \<open>ValueError("Unknown skill: Wave")\<close>. Second, when the snapshot is not a mapping
  but the default empty list, every target is absent from it, and \<open>execute\<close> raises
  \<open>AttributeError\<close> while it builds the message.
\<close>

theorem unknown_object_not_raised:
  "has_target wave_heap (VRef 1) (VStr ''blue_mug'')
   \<and> contains example_objects (VStr ''blue_mug'') = Inr False
   \<and> make_task_sequence wave_heap (VRef 4) = Inr [VRef 0, VRef 1]
   \<and> execute example_objects ok_server (VRef 4) \<lparr>heap = wave_heap, sent = []\<rparr>
       = (Inl (ValueError (VStr ''Wave'')), \<lparr>heap = wave_heap, sent = []\<rparr>)
   \<and> \<not> unknown_object (ValueError (VStr ''Wave''))
   \<and> has_target mug_heap (VRef 1) (VStr ''blue_mug'')
   \<and> contains ObjEmptyList (VStr ''blue_mug'') = Inr False
   \<and> make_task_sequence mug_heap (VRef 8) = Inr [VRef 1]
   \<and> execute ObjEmptyList ok_server (VRef 8) \<lparr>heap = mug_heap, sent = []\<rparr>
       = (Inl AttributeError, \<lparr>heap = mug_heap, sent = []\<rparr>)
   \<and> \<not> unknown_object AttributeError"
  by (simp add: exec_defs has_target_def unknown_object_def example_objects_def ok_server_def
      wave_heap_def mug_heap_def)

text \<open>
  C2, amended: for every Environment Snapshot that is a mapping from object names
  (the environment's answer had an \<open>objects\<close> member) and every task list in which
  a task's target name is absent from that mapping and every task before it is
  carried out, \<open>execute\<close> raises the unknown-object error, whose message holds the
  target and the names of the snapshot, and the call returns no result list: the
  results of the tasks before the failing one are not returned. The world is left as
  those tasks left it.
\<close>

theorem unknown_object_raised:
  assumes "make_task_sequence (heap w) task_outputs = Inr (before @ task # rest)"
    and "run_tasks (ObjDict m) srv [] before w = (Inr results, w1)"
    and "has_target (heap w) task (VStr name)"
    and "map_of m name = None"
  shows "execute (ObjDict m) srv task_outputs w
           = (Inl (KeyError (ObjectNotFound (VStr name) (map fst m))), w1)"
proof -
  from assms(2) have "prefix (heap w) (heap w1)" by (rule run_tasks_prefix)
  with assms(3) have "has_target (heap w1) task (VStr name)" by (rule has_target_prefix)
  from exec_task_unknown_object [OF this assms(4)] assms(1,2) show ?thesis
    by (simp add: execute_def run_tasks_append)
qed

text \<open>
  Two instances. In \<open>mug_heap\<close> the task before the failing one is carried out (one
  post, one result object) and a task follows it; the error is raised and the result
  of the first task is not returned. The second instance is the example of the
  specification: snapshot \<open>{red_cup}\<close>, task
  \<open>{skill:"PickObject", target:"blue_mug"}\<close>, error listing \<open>["red_cup"]\<close>.
\<close>

theorem unknown_object_raised_witness:
  "make_task_sequence (heap mug_start) (VRef 5) = Inr ([VRef 0] @ VRef 1 # [VRef 2])
   \<and> run_tasks example_objects ok_server [] [VRef 0] mug_start = (Inr [VRef 9], mug_after_first)
   \<and> has_target (heap mug_start) (VRef 1) (VStr ''blue_mug'')
   \<and> execute example_objects ok_server (VRef 5) mug_start
        = (Inl (KeyError (ObjectNotFound (VStr ''blue_mug'') [''table'', ''red_cup''])),
           mug_after_first)
   \<and> make_task_sequence mug_heap (VRef 8) = Inr ([] @ VRef 1 # [])
   \<and> execute red_cup_only ok_server (VRef 8) \<lparr>heap = mug_heap, sent = []\<rparr>
        = (Inl (KeyError (ObjectNotFound (VStr ''blue_mug'') [''red_cup''])),
           \<lparr>heap = mug_heap, sent = []\<rparr>)"
proof -
  have s: "make_task_sequence (heap mug_start) (VRef 5) = Inr ([VRef 0] @ VRef 1 # [VRef 2])"
    using mug_sequence by simp
  have t: "has_target (heap mug_start) (VRef 1) (VStr ''blue_mug'')"
    by (simp add: has_target_def mug_start_def mug_heap_def deref_def)
  have a: "execute example_objects ok_server (VRef 5) mug_start
        = (Inl (KeyError (ObjectNotFound (VStr ''blue_mug'') [''table'', ''red_cup''])),
           mug_after_first)"
    using unknown_object_raised [of mug_start "VRef 5" "[VRef 0]" "VRef 1" "[VRef 2]"
        "[(''table'', JDict [(''pos'', JList [JNum 1, JNum 2, JNum 0])]),
          (''red_cup'', JDict [(''pos'', JList [JNum 3, JNum 4, JNum 1])])]"
        ok_server "[VRef 9]" mug_after_first "''blue_mug''"]
      s t mug_first_task
    by (simp add: example_objects_def)
  have b: "make_task_sequence mug_heap (VRef 8) = Inr ([] @ VRef 1 # [])
     \<and> execute red_cup_only ok_server (VRef 8) \<lparr>heap = mug_heap, sent = []\<rparr>
        = (Inl (KeyError (ObjectNotFound (VStr ''blue_mug'') [''red_cup''])),
           \<lparr>heap = mug_heap, sent = []\<rparr>)"
    using unknown_object_raised [of "\<lparr>heap = mug_heap, sent = []\<rparr>" "VRef 8" "[]" "VRef 1" "[]"
        "[(''red_cup'', JDict [(''pos'', JList [JNum 3, JNum 4, JNum 1])])]" ok_server "[]"
        "\<lparr>heap = mug_heap, sent = []\<rparr>" "''blue_mug''"]
    by (simp add: red_cup_only_def has_target_def make_task_sequence_def py_iter_def
        py_getitem_def deref_def mug_heap_def)
  from s t a b mug_first_task show ?thesis by blast
qed

subsection \<open>Validation and the network\<close>

text \<open>
  C3, as stated, fails: each task is validated inside the loop, just before its own
  command is posted, so the commands of the earlier tasks have been posted when a
  later task fails validation. In \<open>mug_heap\<close> the first task is valid and the second
  names \<open>blue_mug\<close>: \<open>execute\<close> raises the unknown-object error after one post.
\<close>

theorem posted_before_validation_error:
  "execute example_objects ok_server (VRef 5) mug_start
     = (Inl (KeyError (ObjectNotFound (VStr ''blue_mug'') [''table'', ''red_cup''])),
        mug_after_first)
   \<and> unknown_object (KeyError (ObjectNotFound (VStr ''blue_mug'') [''table'', ''red_cup'']))
   \<and> sent mug_start = []
   \<and> sent mug_after_first = [run_code (go_to_code (JList [JNum 1, JNum 2, JNum 0]))]"
  using mug_run by (simp add: unknown_object_def mug_start_def mug_after_first_def)

text \<open>
  C3, amended: whenever \<open>execute\<close> raises an unknown-object or unsupported-skill
  error, the error is raised before any network effect of the offending task: no
  command has been posted for that task or for any later one. The tasks before it
  were carried out, one post each, and the world is as they left it.
\<close>

theorem validation_error_posts_nothing:
  assumes "execute om srv task_outputs w = (Inl e, w')"
    and "unknown_object e \<or> unsupported_skill e"
  shows "\<exists>before task rest results.
           make_task_sequence (heap w) task_outputs = Inr (before @ task # rest)
         \<and> run_tasks om srv [] before w = (Inr results, w')
         \<and> exec_task om srv task w' = (Inl e, w')
         \<and> length (sent w') = length (sent w) + length before"
proof -
  from assms obtain ts where ts: "make_task_sequence (heap w) task_outputs = Inr ts"
    and run: "run_tasks om srv [] ts w = (Inl e, w')"
    by (auto simp: execute_def split: sum.splits dest: make_task_sequence_error)
  from run_tasks_failure [OF run] obtain before task rest results w1 where
    d: "ts = before @ task # rest" "run_tasks om srv [] before w = (Inr results, w1)"
       "exec_task om srv task w1 = (Inl e, w')" by blast
  from exec_task_validation [OF d(3) assms(2)] have w: "w' = w1" .
  from d(2) have "length (sent w1) = length (sent w) + length before" by (rule run_tasks_sent)
  with ts d w show ?thesis by blast
qed

theorem validation_error_posts_nothing_witness:
  "\<exists>before task rest results.
      make_task_sequence (heap mug_start) (VRef 5) = Inr (before @ task # rest)
    \<and> run_tasks example_objects ok_server [] before mug_start = (Inr results, mug_after_first)
    \<and> exec_task example_objects ok_server task mug_after_first
        = (Inl (KeyError (ObjectNotFound (VStr ''blue_mug'') [''table'', ''red_cup''])),
           mug_after_first)
    \<and> length (sent mug_after_first) = length (sent mug_start) + length before"
proof -
  have err: "unknown_object (KeyError (ObjectNotFound (VStr ''blue_mug'') [''table'', ''red_cup'']))
      \<or> unsupported_skill (KeyError (ObjectNotFound (VStr ''blue_mug'') [''table'', ''red_cup'']))"
    by (simp add: unknown_object_def)
  from validation_error_posts_nothing [OF mug_run err] show ?thesis .
qed

subsection \<open>Abort on failure\<close>

text \<open>
  C6: a failure of a task aborts the rest of the sequence. When the tasks \<open>before\<close>
  are carried out and \<open>task\<close> then fails with \<open>e\<close>, \<open>execute\<close> raises \<open>e\<close>
  whatever the tasks \<open>rest\<close> are, and leaves the world in which \<open>task\<close> failed: no
  task after the failing one is dispatched or yields a result object. Nothing is
  retried: each task carried out has posted once and has one result object, the
  failing task has posted at most once, and not at all when the failure is an
  unknown object or an unsupported skill.
\<close>

theorem failure_aborts_sequence:
  assumes "make_task_sequence (heap w) task_outputs = Inr (before @ task # rest)"
    and "run_tasks om srv [] before w = (Inr results, w1)"
    and "exec_task om srv task w1 = (Inl e, w2)"
  shows "execute om srv task_outputs w = (Inl e, w2)
       \<and> heap w2 = heap w1
       \<and> length (heap w1) = length (heap w) + length before
       \<and> length (sent w1) = length (sent w) + length before
       \<and> (sent w2 = sent w1 \<or> (\<exists>p. sent w2 = sent w1 @ [p]))
       \<and> (unknown_object e \<or> unsupported_skill e \<longrightarrow> w2 = w1)"
proof -
  from assms have "execute om srv task_outputs w = (Inl e, w2)"
    by (simp add: execute_def run_tasks_append)
  moreover from assms(3)
  have "heap w2 = heap w1 \<and> (sent w2 = sent w1 \<or> (\<exists>p. sent w2 = sent w1 @ [p]))"
    by (rule exec_task_Inl)
  moreover from assms(2) have "length (heap w1) = length (heap w) + length before"
    by (rule run_tasks_heap_length)
  moreover from assms(2) have "length (sent w1) = length (sent w) + length before"
    by (rule run_tasks_sent)
  moreover have "unknown_object e \<or> unsupported_skill e \<longrightarrow> w2 = w1"
    using exec_task_validation [OF assms(3)] by blast
  ultimately show ?thesis by blast
qed

theorem failure_aborts_sequence_witness:
  "make_task_sequence (heap mug_start) (VRef 5) = Inr ([VRef 0] @ VRef 1 # [VRef 2])
   \<and> run_tasks example_objects ok_server [] [VRef 0] mug_start = (Inr [VRef 9], mug_after_first)
   \<and> exec_task example_objects ok_server (VRef 1) mug_after_first
        = (Inl (KeyError (ObjectNotFound (VStr ''blue_mug'') [''table'', ''red_cup''])),
           mug_after_first)
   \<and> execute example_objects ok_server (VRef 5) mug_start
        = (Inl (KeyError (ObjectNotFound (VStr ''blue_mug'') [''table'', ''red_cup''])),
           mug_after_first)
   \<and> length (heap mug_after_first) = length (heap mug_start) + length [VRef 0]
   \<and> length (sent mug_after_first) = length (sent mug_start) + length [VRef 0]"
proof -
  have s: "make_task_sequence (heap mug_start) (VRef 5) = Inr ([VRef 0] @ VRef 1 # [VRef 2])"
    using mug_sequence by simp
  from failure_aborts_sequence [OF s mug_first_task mug_second_task] s mug_first_task
    mug_second_task
  show ?thesis by blast
qed

subsection \<open>A snapshot without objects\<close>

text \<open>
  C9: when the answer of the environment endpoint has no \<open>objects\<close> member, the
  construction succeeds and \<open>object_map\<close> is the empty list. Every later
  \<open>execute\<close> on a sequence with at least one task raises, leaving the world as it
  was (nothing posted); when the first task has a target, the membership test finds
  it missing, \<open>.keys()\<close> fails on the list, and the error is \<open>AttributeError\<close>,
  not the unknown-object error.
\<close>

theorem missing_objects_key:
  assumes "map_of body ''objects'' = None"
    and "make_task_sequence (heap w) task_outputs = Inr (task # rest)"
  shows "init (EnvJson body) = Inr ObjEmptyList
       \<and> (\<exists>e. execute ObjEmptyList srv task_outputs w = (Inl e, w))
       \<and> (has_target (heap w) task name \<longrightarrow>
            contains ObjEmptyList name = Inr False
          \<and> keys ObjEmptyList = Inl AttributeError
          \<and> execute ObjEmptyList srv task_outputs w = (Inl AttributeError, w))"
proof -
  from assms(1) have "init (EnvJson body) = Inr ObjEmptyList" by (simp add: init_def)
  moreover from exec_task_empty_list [of srv task w] assms(2)
  have "\<exists>e. execute ObjEmptyList srv task_outputs w = (Inl e, w)"
    by (auto simp: execute_def)
  moreover have "has_target (heap w) task name \<longrightarrow>
      execute ObjEmptyList srv task_outputs w = (Inl AttributeError, w)"
    using assms(2) by (simp add: execute_def exec_task_empty_list_target)
  ultimately show ?thesis by (simp add: contains_def keys_def)
qed

theorem missing_objects_key_witness:
  "map_of [(''status'', [])] ''objects'' = None
   \<and> make_task_sequence example_heap (VRef 10) = Inr (VRef 0 # [VRef 1, VRef 2])
   \<and> has_target example_heap (VRef 0) (VStr ''table'')
   \<and> init (EnvJson [(''status'', [])]) = Inr ObjEmptyList
   \<and> execute ObjEmptyList ok_server (VRef 10) \<lparr>heap = example_heap, sent = []\<rparr>
        = (Inl AttributeError, \<lparr>heap = example_heap, sent = []\<rparr>)"
  using missing_objects_key [of "[(''status'', [])]" "\<lparr>heap = example_heap, sent = []\<rparr>"
      "VRef 10" "VRef 0" "[VRef 1, VRef 2]" ok_server "VStr ''table''"]
  by (simp add: has_target_def make_task_sequence_def py_iter_def py_getitem_def deref_def
      example_heap_def)

subsection \<open>The skill methods and the network\<close>












subsection \<open>The input is not mutated\<close>

lemma closed_heap_deref: "closed_heap h \<Longrightarrow> deref h a = Some ob \<Longrightarrow> wf_obj h ob"
  by (auto simp: closed_heap_def deref_def list_all_iff split: if_splits)

lemma py_iter_wf:
  assumes "closed_heap h" and "py_iter h v = Inr vs"
  shows "list_all (wf_val h) vs"
  using assms
  by (auto simp: py_iter_def wf_obj_def wf_val_def list_all_iff
      split: val.splits option.splits obj.splits dest!: closed_heap_deref)

lemma flatten_groups_wf:
  assumes "closed_heap h"
  shows "list_all (wf_val h) acc \<Longrightarrow> flatten_groups h acc groups = Inr ts
           \<Longrightarrow> list_all (wf_val h) ts"
proof (induction groups arbitrary: acc)
  case Nil
  then show ?case by simp
next
  case (Cons g groups)
  from Cons.prems(2) obtain tv gs where
    i: "py_iter h tv = Inr gs" and f: "flatten_groups h (acc @ gs) groups = Inr ts"
    by (auto simp: append_tasks_eq split: sum.splits)
  from py_iter_wf [OF assms i] Cons.prems(1) have "list_all (wf_val h) (acc @ gs)" by simp
  from Cons.IH [OF this f] show ?case .
qed

lemma make_task_sequence_wf:
  assumes "closed_heap h" and "make_task_sequence h v = Inr ts"
  shows "list_all (wf_val h) ts"
  using assms(2) flatten_groups_wf [OF assms(1), of "[]"]
  by (auto simp: make_task_sequence_def split: sum.splits)

lemma result_of_base:
  assumes "wf_val h0 task" and "prefix h0 h" and "task = VRef a" and "deref h a = Some (ODict d)"
  shows "result_of h0 task (ODict (AList.update ''result'' (VStr ''Ok'') d))"
proof -
  from assms(1,3) have a: "a < length h0" by (simp add: wf_val_def)
  from assms(2) obtain ext where "h = h0 @ ext" by (auto simp: prefix_def)
  with a assms(4) have "deref h0 a = Some (ODict d)" by (simp add: deref_append)
  with assms(3) show ?thesis by (auto simp: result_of_def)
qed

lemma run_tasks_results:
  "run_tasks om srv rs ts w = (Inr rs', w') \<Longrightarrow> list_all (wf_val h0) ts \<Longrightarrow> prefix h0 (heap w)
     \<Longrightarrow> \<exists>copies. heap w' = heap w @ copies \<and> list_all2 (result_of h0) ts copies
           \<and> rs' = rs @ map VRef [length (heap w) ..< length (heap w) + length ts]"
proof (induction ts arbitrary: rs w)
  case Nil
  then show ?case by simp
next
  case (Cons t ts)
  from Cons.prems(1) obtain tr w1 where
    t: "exec_task om srv t w = (Inr tr, w1)" and r: "run_tasks om srv (rs @ [tr]) ts w1 = (Inr rs', w')"
    by (auto split: sum.splits prod.splits)
  from exec_task_Inr [OF t] obtain a d where
    c: "t = VRef a" "deref (heap w) a = Some (ODict d)" "tr = VRef (length (heap w))"
       "heap w1 = heap w @ [ODict (AList.update ''result'' (VStr ''Ok'') d)]"
    by (auto simp: completed_def)
  from Cons.prems(2) have wt: "wf_val h0 t" and wts: "list_all (wf_val h0) ts" by simp_all
  from result_of_base [OF wt Cons.prems(3) c(1,2)]
  have res: "result_of h0 t (ODict (AList.update ''result'' (VStr ''Ok'') d))" .
  from Cons.prems(3) c(4) have "prefix h0 (heap w1)" by (auto simp: prefix_def)
  from Cons.IH [OF r wts this] obtain copies where
    ih: "heap w' = heap w1 @ copies" "list_all2 (result_of h0) ts copies"
        "rs' = (rs @ [tr]) @ map VRef [length (heap w1) ..< length (heap w1) + length ts]"
    by blast
  let ?c = "ODict (AList.update ''result'' (VStr ''Ok'') d)"
  have u: "[length (heap w) ..< length (heap w) + length (t # ts)]
      = length (heap w) # [length (heap w1) ..< length (heap w1) + length ts]"
    using c(4) by (simp add: upt_conv_Cons del: upt_Suc)
  from ih(1) c(4) have "heap w' = heap w @ (?c # copies)" by simp
  moreover from res ih(2) have "list_all2 (result_of h0) (t # ts) (?c # copies)" by simp
  moreover from ih(3) c(3)
  have "rs' = rs @ map VRef (length (heap w) # [length (heap w1) ..< length (heap w1) + length ts])"
    by simp
  then have "rs' = rs @ map VRef [length (heap w) ..< length (heap w) + length (t # ts)]"
    by (simp only: u)
  ultimately show ?case by blast
qed

text \<open>
  C10: \<open>execute\<close> never mutates its input. Whether it returns or raises, the heap
  it leaves behind starts with the heap it was given: every object that existed
  before the call (the list of groups, the group dicts, their task lists, the task
  dicts) is unchanged. When it returns, the heap has grown by one new dict per task, in
  the order of the flattened sequence, each the copy of its task with \<open>result\<close> set
  to \<open>"Ok"\<close>, and the returned list holds the references to these new dicts in
  that order.
\<close>

theorem execute_keeps_input:
  assumes "closed_heap (heap w)" and "execute om srv task_outputs w = (r, w')"
  shows "prefix (heap w) (heap w')
       \<and> (\<forall>results. r = Inr results \<longrightarrow>
            (\<exists>tasks copies. make_task_sequence (heap w) task_outputs = Inr tasks
               \<and> heap w' = heap w @ copies
               \<and> list_all2 (result_of (heap w)) tasks copies
               \<and> results = map VRef [length (heap w) ..< length (heap w) + length tasks]))"
proof (cases "make_task_sequence (heap w) task_outputs")
  case (Inl e)
  with assms(2) show ?thesis by (auto simp: execute_def)
next
  case (Inr ts)
  with assms(2) have run: "run_tasks om srv [] ts w = (r, w')" by (simp add: execute_def)
  then have p: "prefix (heap w) (heap w')" by (rule run_tasks_prefix)
  from make_task_sequence_wf [OF assms(1) Inr] have wf: "list_all (wf_val (heap w)) ts" .
  show ?thesis
  proof (cases r)
    case (Inl e)
    with p show ?thesis by simp
  next
    case r: (Inr results)
    with run have "run_tasks om srv [] ts w = (Inr results, w')" by simp
    from run_tasks_results [OF this wf prefix_order.refl] Inr r p show ?thesis by simp
  qed
qed

theorem execute_keeps_input_witness:
  "closed_heap example_heap
   \<and> (\<exists>copies.
        heap (snd (execute example_objects ok_server (VRef 10)
                     \<lparr>heap = example_heap, sent = []\<rparr>))
          = example_heap @ copies
      \<and> list_all2 (result_of example_heap) [VRef 0, VRef 1, VRef 2] copies)
   \<and> fst (execute example_objects ok_server (VRef 10) \<lparr>heap = example_heap, sent = []\<rparr>)
       = Inr [VRef 11, VRef 12, VRef 13]"
proof -
  let ?w = "\<lparr>heap = example_heap, sent = []\<rparr>"
  let ?x = "execute example_objects ok_server (VRef 10) ?w"
  have c: "closed_heap (heap ?w)"
    by (simp add: closed_heap_def wf_obj_def wf_val_def example_heap_def)
  have r: "fst ?x = Inr [VRef 11, VRef 12, VRef 13]"
    by (simp add: exec_defs example_objects_def ok_server_def example_heap_def)
  have s: "make_task_sequence example_heap (VRef 10) = Inr [VRef 0, VRef 1, VRef 2]"
    by (simp add: example_heap_def make_task_sequence_def py_iter_def py_getitem_def
      deref_def append_tasks_eq)
  have x: "?x = (fst ?x, snd ?x)" by simp
  from execute_keeps_input [OF c x] r s c show ?thesis by auto
qed

section \<open>Properties of the server\<close>

subsection \<open>The history and the steps\<close>

lemma puts_append: "puts (h1 @ h2) = puts h1 @ puts h2"
  by (induction h1 rule: puts.induct) simp_all

lemma gets_append: "gets (h1 @ h2) = gets h1 @ gets h2"
  by (induction h1 rule: gets.induct) simp_all

lemma begins_append: "begins (h1 @ h2) = begins h1 @ begins h2"
  by (induction h1 rule: begins.induct) simp_all

lemma in_flight_append: "in_flight b (h1 @ h2) = in_flight (in_flight b h1) h2"
  by (induction b h1 rule: in_flight.induct) simp_all

lemma serial_append: "serial b (h1 @ h2) = (serial b h1 \<and> serial (in_flight b h1) h2)"
  by (induction b h1 rule: serial.induct) auto

lemma poll_empty: "actions_queue s = [] \<Longrightarrow> poll s = s"
  by (simp add: poll_def)

lemma poll_queue: "actions_queue s = item # rest \<Longrightarrow> actions_queue (poll s) = rest"
  by (simp add: poll_def handle_action_def processing_error_def split: sum.splits)

lemma poll_simulator: "simulator (poll s) = simulator s"
  by (simp add: poll_def handle_action_def processing_error_def split: sum.splits list.splits)

lemma poll_worker:
  "actions_queue s = item # rest \<Longrightarrow> worker s = Polling \<Longrightarrow>
     worker (poll s) = (case envelope_code item of None \<Rightarrow> Polling | Some c \<Rightarrow> Executing c)"
  by (simp add: poll_def handle_action_def processing_error_def envelope_code_def
      split: sum.splits)

lemma poll_history:
  "actions_queue s = item # rest \<Longrightarrow>
     history (poll s)
       = history s @ Get item # (case envelope_code item of None \<Rightarrow> [] | Some c \<Rightarrow> [Begin c])"
  by (simp add: poll_def handle_action_def processing_error_def envelope_code_def
      split: sum.splits)

lemma finish_queue: "actions_queue (finish exec_code s) = actions_queue s"
  by (simp add: finish_def split: worker.splits prod.splits outcome.splits)

lemma finish_history:
  "worker s = Executing c \<Longrightarrow> history (finish exec_code s) = history s @ [End]"
  by (simp add: finish_def split: prod.splits outcome.splits)

lemma finish_worker:
  "worker s = Executing c \<Longrightarrow> worker (finish exec_code s) \<noteq> Executing c'"
  by (simp add: finish_def split: prod.splits outcome.splits)

lemma receive_action_cases:
  "receive_action action s = (r, s') \<Longrightarrow> s' = s \<or> s' = put (JDict action) s"
  by (auto simp: receive_action_def split: sum.splits bool.splits)

lemma map_filter_append:
  "List.map_filter f (xs @ ys) = List.map_filter f xs @ List.map_filter f ys"
  by (simp add: List.map_filter_def)

lemma invariant_put: "dispatch_invariant s \<Longrightarrow> dispatch_invariant (put x s)"
  by (simp add: dispatch_invariant_def put_def puts_append gets_append begins_append
      serial_append in_flight_append)

lemma invariant_poll:
  assumes "dispatch_invariant s" and "worker s = Polling"
  shows "dispatch_invariant (poll s)"
proof (cases "actions_queue s")
  case Nil
  with assms show ?thesis by (simp add: poll_empty)
next
  case (Cons item rest)
  from assms poll_queue [OF Cons] poll_worker [OF Cons assms(2)] poll_history [OF Cons] Cons
  show ?thesis
    by (auto simp: dispatch_invariant_def puts_append gets_append begins_append
        serial_append in_flight_append map_filter_simps map_filter_append
        split: option.splits)
qed

lemma invariant_finish:
  assumes "dispatch_invariant s" and "worker s = Executing c"
  shows "dispatch_invariant (finish exec_code s)"
  using assms finish_queue [of exec_code s] finish_history [OF assms(2), of exec_code]
    finish_worker [OF assms(2), of exec_code]
  by (auto simp: dispatch_invariant_def puts_append gets_append begins_append
      serial_append in_flight_append)

lemma invariant_step:
  "step exec_code s s' \<Longrightarrow> dispatch_invariant s \<Longrightarrow> dispatch_invariant s'"
  by (induction rule: step.induct)
     (auto dest!: receive_action_cases intro: invariant_put invariant_poll invariant_finish)

lemma invariant_reachable: "reachable exec_code sim s \<Longrightarrow> dispatch_invariant s"
proof (induction rule: reachable.induct)
  case start
  show ?case by (simp add: dispatch_invariant_def initial_def map_filter_simps)
next
  case (next_step s s')
  from next_step(2,3) show ?case by (rule invariant_step)
qed

lemmas server_defs = put_def initial_def llm_envelope_def poll_def handle_action_def
  processing_error_def finish_def pass_def json_getitem_def json_get_def envelope_code_def

lemma two_queued_code:
  "envelope_code (llm_envelope ''a'') = Some (JStr ''a'')"
  "envelope_code (llm_envelope ''b'') = Some (JStr ''b'')"
  by (simp_all add: server_defs)

subsection \<open>Errors in the worker\<close>

lemma poll_printed:
  "actions_queue s = item # rest \<Longrightarrow> envelope_code item = Some c \<Longrightarrow>
     \<exists>action. printed (poll s) = printed s @ [Received action]"
  by (auto simp: poll_def handle_action_def processing_error_def envelope_code_def
      split: sum.splits if_splits)

text \<open>
  C7: when the code of the envelope at the front of the queue raises an exception in
  \<open>exec_code\<close>, the pass of the worker's loop ends with the worker back at the top
  of the loop (it has not stopped), the error printed after the received action, the
  envelope gone from the queue and nothing put back (at most one execution, no
  retry); the next poll takes the next envelope and, when it is a \<open>run_code\<close>
  envelope, enters \<open>exec_code\<close> with its code.
\<close>

theorem worker_survives_error:
  assumes "worker s = Polling" and "actions_queue s = item # rest"
    and "envelope_code item = Some code"
    and "exec_code code (simulator s) = (Raised msg, sim')"
  shows "worker (pass exec_code s) = Polling
       \<and> actions_queue (pass exec_code s) = rest
       \<and> simulator (pass exec_code s) = sim'
       \<and> (\<exists>action. printed (pass exec_code s) = printed s @ [Received action, ExecutionError msg])
       \<and> puts (history (pass exec_code s)) = puts (history s)
       \<and> begins (history (pass exec_code s)) = begins (history s) @ [code]
       \<and> (\<forall>item' rest'. rest = item' # rest' \<longrightarrow>
            actions_queue (poll (pass exec_code s)) = rest'
          \<and> (\<forall>code'. envelope_code item' = Some code' \<longrightarrow>
                worker (poll (pass exec_code s)) = Executing code'))"
proof -
  let ?p = "poll s"
  from poll_worker [OF assms(2,1)] assms(3) have w: "worker ?p = Executing code" by simp
  from poll_queue [OF assms(2)] have q: "actions_queue ?p = rest" .
  from poll_history [OF assms(2)] assms(3)
  have h: "history ?p = history s @ [Get item, Begin code]" by simp
  from poll_printed [OF assms(2,3)] obtain action where
    pr: "printed ?p = printed s @ [Received action]" by blast
  from assms(4) have sim: "exec_code code (simulator ?p) = (Raised msg, sim')"
    by (simp add: poll_simulator)
  let ?f = "pass exec_code s"
  from w sim have f: "?f = ?p\<lparr>worker := Polling, simulator := sim',
      printed := printed ?p @ [ExecutionError msg], history := history ?p @ [End]\<rparr>"
    by (simp add: pass_def finish_def)
  have 1: "worker ?f = Polling" and 2: "actions_queue ?f = rest" and 3: "simulator ?f = sim'"
    by (simp_all add: f q)
  have 4: "\<exists>action. printed ?f = printed s @ [Received action, ExecutionError msg]"
    by (simp add: f pr)
  have 5: "puts (history ?f) = puts (history s)"
    and 6: "begins (history ?f) = begins (history s) @ [code]"
    by (simp_all add: f h puts_append begins_append)
  have 7: "\<forall>item' rest'. rest = item' # rest' \<longrightarrow>
            actions_queue (poll ?f) = rest'
          \<and> (\<forall>code'. envelope_code item' = Some code' \<longrightarrow> worker (poll ?f) = Executing code')"
  proof (intro allI impI)
    fix item' rest' assume "rest = item' # rest'"
    with 2 have q': "actions_queue ?f = item' # rest'" by simp
    from poll_queue [OF q'] poll_worker [OF q' 1]
    show "actions_queue (poll ?f) = rest'
          \<and> (\<forall>code'. envelope_code item' = Some code' \<longrightarrow> worker (poll ?f) = Executing code')"
      by simp
  qed
  from 1 2 3 4 5 6 7 show ?thesis by blast
qed

theorem worker_survives_error_witness:
  "worker two_queued = Polling
   \<and> actions_queue two_queued = llm_envelope ''a'' # [llm_envelope ''b'']
   \<and> envelope_code (llm_envelope ''a'') = Some (JStr ''a'')
   \<and> raising (JStr ''a'') (simulator two_queued) = (Raised ''boom'', ())
   \<and> worker (pass raising two_queued) = Polling
   \<and> actions_queue (pass raising two_queued) = [llm_envelope ''b'']
   \<and> actions_queue (poll (pass raising two_queued)) = []
   \<and> worker (poll (pass raising two_queued)) = Executing (JStr ''b'')"
proof -
  have 1: "worker two_queued = Polling"
    and 2: "actions_queue two_queued = llm_envelope ''a'' # [llm_envelope ''b'']"
    and 4: "raising (JStr ''a'') (simulator two_queued) = (Raised ''boom'', ())"
    by (simp_all add: two_queued_def put_def initial_def raising_def)
  from worker_survives_error [of two_queued "llm_envelope ''a''" "[llm_envelope ''b'']"
      "JStr ''a''" raising "''boom''" "()"] 1 2 4 two_queued_code
  show ?thesis by simp
qed

subsection \<open>What the action endpoint accepts\<close>

text \<open>
  C8, as stated, fails: \<open>receive_action\<close> checks that the members \<open>action\<close>,
  \<open>type\<close> and \<open>payload\<close> are present and never looks at the value of
  \<open>type\<close>. An envelope of type \<open>"fly"\<close> is answered with status 200 and put
  on the queue.
\<close>

theorem unknown_type_enqueued:
  "receive_action fly_envelope (initial ()) = (Inr accepted, put (JDict fly_envelope) (initial ()))
   \<and> actions_queue (put (JDict fly_envelope) (initial ())) = [JDict fly_envelope]
   \<and> json_getitem (JDict [(''type'', JStr ''fly''), (''payload'', JDict [])]) ''type'' = Inr (JStr ''fly'')"
  by (simp add: receive_action_def well_formed_def json_contains_def fly_envelope_def
      accepted_def put_def initial_def json_getitem_def)

text \<open>
  C8, amended: for every submission to the action endpoint whose \<open>action\<close> member
  is absent or a JSON object, the envelope is rejected with the client-error status
  400 and not put on the queue when \<open>action\<close>, its \<open>type\<close> or its
  \<open>payload\<close> is absent, and otherwise put on the queue and acknowledged with
  status 200 in the same call, whatever the value of \<open>type\<close>. An envelope whose
  type is not \<open>"run_code"\<close> is accepted too; the worker later takes it from the
  queue, prints it, and executes nothing.
\<close>

theorem members_checked_only:
  "(map_of action ''action'' = None \<longrightarrow> receive_action action s = (Inr rejected, s))
   \<and> (map_of action ''action'' = Some (JDict a) \<longrightarrow>
        receive_action action s =
          (if map_of a ''type'' \<noteq> None \<and> map_of a ''payload'' \<noteq> None
           then (Inr accepted, put (JDict action) s)
           else (Inr rejected, s)))
   \<and> (map_of action ''action'' = Some (JDict a) \<and> map_of a ''type'' = Some ty
        \<and> ty \<noteq> JStr ''run_code'' \<and> actions_queue s = JDict action # rest \<longrightarrow>
        poll s = s\<lparr>actions_queue := rest, printed := printed s @ [Received (JDict a)],
                   history := history s @ [Get (JDict action)]\<rparr>)"
  by (auto simp: receive_action_def well_formed_def json_contains_def accepted_def rejected_def
      poll_def handle_action_def json_getitem_def split: bool.splits)

theorem members_checked_only_witness:
  "map_of fly_envelope ''action'' = Some (JDict [(''type'', JStr ''fly''), (''payload'', JDict [])])
   \<and> receive_action fly_envelope (initial ()) = (Inr accepted, fly_queued)
   \<and> actions_queue fly_queued = JDict fly_envelope # []
   \<and> poll fly_queued
       = fly_queued\<lparr>actions_queue := [],
           printed := printed fly_queued
              @ [Received (JDict [(''type'', JStr ''fly''), (''payload'', JDict [])])],
           history := history fly_queued @ [Get (JDict fly_envelope)]\<rparr>
   \<and> receive_action [(''action'', JDict [(''type'', JStr ''run_code'')])] (initial ())
       = (Inr rejected, initial ())"
  using members_checked_only [of fly_envelope "initial ()"
      "[(''type'', JStr ''fly''), (''payload'', JDict [])]" "JStr ''fly''" "[]"]
    members_checked_only [of fly_envelope fly_queued
      "[(''type'', JStr ''fly''), (''payload'', JDict [])]" "JStr ''fly''" "[]"]
    members_checked_only [of "[(''action'', JDict [(''type'', JStr ''run_code'')])]" "initial ()"
      "[(''type'', JStr ''run_code'')]" "JStr ''run_code''" "[]"]
  by (simp add: fly_envelope_def fly_queued_def put_def initial_def)

subsection \<open>One envelope at a time, in order\<close>

text \<open>
  C1: in every state the server can reach, by requests to the action endpoint, puts
  by \<open>llm_command\<close> and steps of the one worker thread in any interleaving, the
  calls of \<open>exec_code\<close> so far did not overlap (each one ended before the next
  began, so at most one envelope is being executed, and one is exactly when the
  worker is inside \<open>exec_code\<close>); the envelopes were taken from the queue in the
  order in which they were put; and the calls begun are those of the \<open>run_code\<close>
  envelopes taken, in that same order. So of two envelopes that are executed, the one
  put first is begun first. (An envelope that is not executed at all, of another type
  or malformed, is taken in its turn and dropped.)
\<close>

theorem serial_fifo_dispatch:
  assumes "reachable exec_code sim s"
  shows "serial False (history s)
       \<and> in_flight False (history s) = (\<exists>c. worker s = Executing c)
       \<and> puts (history s) = gets (history s) @ actions_queue s
       \<and> begins (history s) = List.map_filter envelope_code (gets (history s))"
  using invariant_reachable [OF assms] by (simp add: dispatch_invariant_def)

lemma two_queued_reachable: "reachable raising () two_queued"
  unfolding two_queued_def
  by (intro reachable.next_step [OF _ step.command] reachable.start)

lemma example_run_reachable: "reachable raising () example_run"
proof -
  have p: "worker two_queued = Polling" by (simp add: two_queued_def put_def initial_def)
  have 1: "reachable raising () (poll two_queued)"
    by (rule reachable.next_step [OF two_queued_reachable step.polls [OF p]])
  have e: "worker (poll two_queued) = Executing (JStr ''a'')"
    by (simp add: two_queued_def server_defs)
  have 2: "reachable raising () (pass raising two_queued)"
    unfolding pass_def by (rule reachable.next_step [OF 1 step.finishes [OF e]])
  have q: "worker (pass raising two_queued) = Polling"
    by (simp add: two_queued_def server_defs raising_def)
  show ?thesis unfolding example_run_def
    by (rule reachable.next_step [OF 2 step.polls [OF q]])
qed

theorem serial_fifo_dispatch_witness:
  "reachable raising () example_run
   \<and> puts (history example_run) = [llm_envelope ''a'', llm_envelope ''b'']
   \<and> gets (history example_run) = [llm_envelope ''a'', llm_envelope ''b'']
   \<and> actions_queue example_run = []
   \<and> begins (history example_run) = [JStr ''a'', JStr ''b'']
   \<and> serial False (history example_run)
   \<and> worker example_run = Executing (JStr ''b'')"
proof -
  have g: "gets (history example_run) = [llm_envelope ''a'', llm_envelope ''b'']"
    and q: "actions_queue example_run = []"
    and w: "worker example_run = Executing (JStr ''b'')"
    by (simp_all add: example_run_def two_queued_def server_defs raising_def)
  from serial_fifo_dispatch [OF example_run_reachable] g q w example_run_reachable
    two_queued_code
  show ?thesis by (simp add: map_filter_simps)
qed

end
